theory Spec2Isabelle
  imports Complex_Main "HOL-Library.Multiset"
begin

section \<open>Incremental reconciliation (data_loading_to_mysql_database.py)\<close>

text \<open>
  A data frame is the list of its rows, in row order. Of a row only the column
  \<open>subject_id\<close> is inspected by \<open>implement_incremental_load\<close>; all other columns are
  carried along unchanged and are kept together in \<open>payload\<close>. A missing identifier
  (NA in pandas) is \<open>None\<close>.
\<close>

record 'p row =
  subject_id :: "int option"
  payload :: 'p

type_synonym 'p dataframe = "'p row list"

text \<open>\<open>df[df[id_column].notna()]\<close> and \<open>df[df[id_column].isna()]\<close>.\<close>

definition notna :: "'p row \<Rightarrow> bool" where
  "notna r = (subject_id r \<noteq> None)"

definition isna :: "'p row \<Rightarrow> bool" where
  "isna r = (subject_id r = None)"

definition df_source_with_id :: "'p dataframe \<Rightarrow> 'p dataframe" where
  "df_source_with_id df_source = filter notna df_source"

definition df_source_na_id :: "'p dataframe \<Rightarrow> 'p dataframe" where
  "df_source_na_id df_source = filter isna df_source"

definition df_target_with_id :: "'p dataframe \<Rightarrow> 'p dataframe" where
  "df_target_with_id df_target = filter notna df_target"

definition df_target_na_id :: "'p dataframe \<Rightarrow> 'p dataframe" where
  "df_target_na_id df_target = filter isna df_target"

text \<open>\<open>set(df_source_with_id[id_column])\<close> and \<open>set(df_target_with_id[id_column])\<close>.\<close>

definition source_id_set :: "'p dataframe \<Rightarrow> int option set" where
  "source_id_set df_source = set (map subject_id (df_source_with_id df_source))"

definition target_id_set :: "'p dataframe \<Rightarrow> int option set" where
  "target_id_set df_target = set (map subject_id (df_target_with_id df_target))"

definition insert_ids :: "'p dataframe \<Rightarrow> 'p dataframe \<Rightarrow> int option set" where
  "insert_ids df_source df_target = source_id_set df_source - target_id_set df_target"

definition delete_ids :: "'p dataframe \<Rightarrow> 'p dataframe \<Rightarrow> int option set" where
  "delete_ids df_source df_target = target_id_set df_target - source_id_set df_source"

definition common_ids :: "'p dataframe \<Rightarrow> 'p dataframe \<Rightarrow> int option set" where
  "common_ids df_source df_target = source_id_set df_source \<inter> target_id_set df_target"

text \<open>
  The part of the result that is taken from the target: the keyed target rows, without
  those to be deleted, and then without the old versions of the rows to be updated.
\<close>

definition df_combined :: "'p dataframe \<Rightarrow> 'p dataframe \<Rightarrow> 'p dataframe" where
  "df_combined df_source df_target =
     filter (\<lambda>r. subject_id r \<notin> common_ids df_source df_target)
       (filter (\<lambda>r. subject_id r \<notin> delete_ids df_source df_target)
          (df_target_with_id df_target))"

definition df_new :: "'p dataframe \<Rightarrow> 'p dataframe \<Rightarrow> 'p dataframe" where
  "df_new df_source df_target =
     filter (\<lambda>r. subject_id r \<in> insert_ids df_source df_target) (df_source_with_id df_source)"

definition df_updated :: "'p dataframe \<Rightarrow> 'p dataframe \<Rightarrow> 'p dataframe" where
  "df_updated df_source df_target =
     filter (\<lambda>r. subject_id r \<in> common_ids df_source df_target) (df_source_with_id df_source)"

text \<open>
  \<open>implement_incremental_load\<close>: the value is the data frame written to the target
  table with \<open>if_exists='replace'\<close>. A target table that cannot be read is the empty
  data frame, as in the source; \<open>df_target.empty\<close> is \<open>df_target = []\<close>.
\<close>

definition implement_incremental_load :: "'p dataframe \<Rightarrow> 'p dataframe \<Rightarrow> 'p dataframe" where
  "implement_incremental_load df_source df_target =
     (if df_target = [] then df_source
      else df_combined df_source df_target @ df_new df_source df_target
           @ df_updated df_source df_target @ df_source_na_id df_source)"

text \<open>The full replace of the target by the source, which the diff is compared with.\<close>

definition full_replace :: "'p dataframe \<Rightarrow> 'p dataframe \<Rightarrow> 'p dataframe" where
  "full_replace df_source df_target = df_source"

text \<open>Every non-null key occurs at most once among the keyed rows of a data frame.\<close>

definition keys_unique :: "'p dataframe \<Rightarrow> bool" where
  "keys_unique df = distinct (map subject_id (filter notna df))"


section \<open>Paged fetching (bangumi_data_ingestion.py)\<close>

text \<open>
  The constants of the module. \<open>RETRY_BACKOFF\<close> is 1.0 second; all durations are
  counted in milliseconds, so that the inter-request delay of 0.5 seconds is a number.
\<close>

definition LIMIT :: nat where "LIMIT = 100"
definition MAX_RETRIES :: nat where "MAX_RETRIES = 3"
definition RETRY_BACKOFF :: nat where "RETRY_BACKOFF = 1000"
definition max_consecutive_failures :: nat where "max_consecutive_failures = 3"

text \<open>The dataclass \<open>CategoryStats\<close>.\<close>

record CategoryStats =
  subject_type :: int
  collection_type :: int
  total_items :: int
  fetched_items :: nat
  pages_fetched :: nat

text \<open>
  The value that \<open>resp.json()\<close> gives for a key of the body: JSON \<open>null\<close>, a boolean, an
  integer, another number, a string, an array or an object. Of an array and an object
  nothing is looked at.
\<close>

datatype pyvalue = PyNone | PyBool bool | PyInt int | PyFloat real | PyStr string | PyList | PyDict

text \<open>
  The outcome of one \<open>session.get\<close> on the collections endpoint, as far as the two
  callers tell outcomes apart: a response with a non-error status and a JSON object
  (the value of its \<open>total\<close>, whatever it is, \<open>None\<close> when the key is absent, and its
  \<open>data\<close>, empty when absent), the status 429, any other error status
  (\<open>raise_for_status\<close> raises), a connection error, a timeout, and a body that cannot be
  read (any other exception).
\<close>

datatype 'a response =
    Http200 "pyvalue option" "'a list"
  | Http429
  | HttpError
  | ConnectionError
  | Timeout
  | Malformed

text \<open>
  The effects on the outside: the requests sent (with their \<open>limit\<close> and \<open>offset\<close>) and
  the sleeps (in milliseconds), in order, and the number of requests sent so far. The
  API is a sequence of outcomes \<open>env\<close>: the request number \<open>n\<close> gets \<open>env n\<close>, whatever
  it asks for, so that every behaviour of the server is covered.
\<close>

datatype event = Request nat nat | Sleep nat

record world =
  requests :: nat
  trace :: "event list"

definition session_get :: "nat \<Rightarrow> nat \<Rightarrow> 'z world_scheme \<Rightarrow> 'z world_scheme" where
  "session_get page_limit page_offset w =
     w\<lparr>requests := requests w + 1, trace := trace w @ [Request page_limit page_offset]\<rparr>"

definition time_sleep :: "nat \<Rightarrow> 'z world_scheme \<Rightarrow> 'z world_scheme" where
  "time_sleep ms w = w\<lparr>trace := trace w @ [Sleep ms]\<rparr>"

definition wait_time :: "nat \<Rightarrow> nat" where
  "wait_time attempt = RETRY_BACKOFF * 2 ^ attempt"








text \<open>
  The state of \<open>fetch_single_category\<close>: its local variables, the \<open>stats\<close> object that
  it mutates, and the outside. \<open>iterations\<close> is not a variable of the source: it counts
  the passes through the body of \<open>while True\<close>, for the bound on their number.
\<close>

record 'a fetch_state = world +
  stats :: CategoryStats
  all_items :: "'a list"
  offset :: nat
  consecutive_failures :: nat
  iterations :: nat

text \<open>
  The inner loop \<open>for attempt in range(MAX_RETRIES)\<close> of one pass. The first component
  of the result is \<open>None\<close> when the loop ends with \<open>success = False\<close>, and \<open>Some items\<close>
  when it ends with \<open>success = True\<close> and the page \<open>items\<close>. The status 429 sleeps ten
  seconds and goes on with the next \<open>attempt\<close> (\<open>continue\<close>).
\<close>

function page_attempts ::
  "(nat \<Rightarrow> 'a response) \<Rightarrow> nat \<Rightarrow> 'a fetch_state \<Rightarrow> 'a list option \<times> 'a fetch_state" where
  "page_attempts env attempt st =
     (if MAX_RETRIES \<le> attempt then (None, st)
      else case env (requests st) of
          Http429 \<Rightarrow>
            page_attempts env (attempt + 1)
              (time_sleep 10000 (session_get LIMIT (offset st) st))
        | Http200 tot items \<Rightarrow>
            if items = [] then (Some items, session_get LIMIT (offset st) st)
            else
              let st1 = (session_get LIMIT (offset st) st)
                    \<lparr>all_items := all_items st @ items,
                     stats := (stats st)
                       \<lparr>fetched_items := fetched_items (stats st) + length items,
                        pages_fetched := pages_fetched (stats st) + 1\<rparr>,
                     consecutive_failures := 0\<rparr>
              in if total_items (stats st) \<le> int (offset st + LIMIT) then (Some items, st1)
                 else (Some items, time_sleep 500 (st1\<lparr>offset := offset st + LIMIT\<rparr>))
        | ConnectionError \<Rightarrow>
            page_attempts env (attempt + 1)
              (if attempt < MAX_RETRIES - 1
               then time_sleep (wait_time attempt) (session_get LIMIT (offset st) st)
               else session_get LIMIT (offset st) st)
        | Timeout \<Rightarrow>
            page_attempts env (attempt + 1)
              (if attempt < MAX_RETRIES - 1
               then time_sleep (wait_time attempt) (session_get LIMIT (offset st) st)
               else session_get LIMIT (offset st) st)
        | HttpError \<Rightarrow> (None, session_get LIMIT (offset st) st)
        | Malformed \<Rightarrow> (None, session_get LIMIT (offset st) st))"
  by pat_completeness auto
termination
  by (relation "measure (\<lambda>(env, attempt, st). MAX_RETRIES - attempt)")
    (auto simp: MAX_RETRIES_def)

text \<open>
  One pass through the body of \<open>while True\<close>, ending in \<open>break\<close> or in the next pass.
  After a page that succeeded the test \<open>offset + LIMIT >= stats.total_items\<close> is made
  on the offset as the inner loop left it.
\<close>

datatype 'a flow = Break 'a | Continue 'a

definition loop_body :: "(nat \<Rightarrow> 'a response) \<Rightarrow> 'a fetch_state \<Rightarrow> 'a fetch_state flow" where
  "loop_body env st =
     (case page_attempts env 0 (st\<lparr>iterations := iterations st + 1\<rparr>) of
        (None, st1) \<Rightarrow>
          if max_consecutive_failures \<le> consecutive_failures st1 + 1
          then Break (st1\<lparr>consecutive_failures := consecutive_failures st1 + 1\<rparr>)
          else Continue (st1\<lparr>consecutive_failures := consecutive_failures st1 + 1,
                              offset := offset st1 + LIMIT\<rparr>)
      | (Some items, st1) \<Rightarrow>
          if items = [] \<or> total_items (stats st1) \<le> int (offset st1 + LIMIT)
          then Break st1 else Continue st1)"

text \<open>What the inner loop leaves unchanged, for the termination of the outer loop.\<close>

declare page_attempts.simps [simp del]

lemma session_get_fields [simp]:
  "offset (session_get l off st) = offset st"
  "consecutive_failures (session_get l off st) = consecutive_failures st"
  "all_items (session_get l off st) = all_items st"
  "stats (session_get l off st) = stats st"
  "iterations (session_get l off st) = iterations st"
  "requests (session_get l off st) = requests st + 1"
  "trace (session_get l off st) = trace st @ [Request l off]"
  by (simp_all add: session_get_def)

lemma time_sleep_fields [simp]:
  "offset (time_sleep ms st) = offset st"
  "consecutive_failures (time_sleep ms st) = consecutive_failures st"
  "all_items (time_sleep ms st) = all_items st"
  "stats (time_sleep ms st) = stats st"
  "iterations (time_sleep ms st) = iterations st"
  "requests (time_sleep ms st) = requests st"
  "trace (time_sleep ms st) = trace st @ [Sleep ms]"
  by (simp_all add: time_sleep_def)

lemma page_attempts_None:
  "page_attempts env attempt st = (None, st1) \<Longrightarrow>
     offset st1 = offset st \<and> consecutive_failures st1 = consecutive_failures st
     \<and> all_items st1 = all_items st \<and> stats st1 = stats st \<and> iterations st1 = iterations st"
proof (induction env attempt st rule: page_attempts.induct)
  case (1 env attempt st)
  show ?case
  proof (cases "MAX_RETRIES \<le> attempt")
    case True
    with "1.prems" show ?thesis by (simp add: page_attempts.simps)
  next
    case False
    show ?thesis
    proof (cases "env (requests st)")
      case (Http200 tot items)
      with False "1.prems" show ?thesis
        by (simp add: page_attempts.simps [of env attempt st] Let_def split: if_splits)
    next
      case Http429
      with False "1.prems" "1.IH"(1) [OF False Http429] show ?thesis
        by (simp add: page_attempts.simps [of env attempt st])
    next
      case HttpError
      with False "1.prems" show ?thesis
        by (auto simp add: page_attempts.simps [of env attempt st])
    next
      case ConnectionError
      with False "1.prems" "1.IH"(2) [OF False ConnectionError] show ?thesis
        by (simp add: page_attempts.simps [of env attempt st] split: if_splits)
    next
      case Timeout
      with False "1.prems" "1.IH"(3) [OF False Timeout] show ?thesis
        by (simp add: page_attempts.simps [of env attempt st] split: if_splits)
    next
      case Malformed
      with False "1.prems" show ?thesis
        by (auto simp add: page_attempts.simps [of env attempt st])
    qed
  qed
qed


lemma page_attempts_Some:
  "page_attempts env attempt st = (Some items, st1) \<Longrightarrow> items \<noteq> [] \<Longrightarrow>
     consecutive_failures st1 = 0 \<and> all_items st1 = all_items st @ items
     \<and> total_items (stats st1) = total_items (stats st) \<and> iterations st1 = iterations st
     \<and> (if total_items (stats st) \<le> int (offset st + LIMIT) then offset st1 = offset st
         else offset st1 = offset st + LIMIT)"
proof (induction env attempt st rule: page_attempts.induct)
  case (1 env attempt st)
  show ?case
  proof (cases "MAX_RETRIES \<le> attempt")
    case True
    with "1.prems" show ?thesis by (simp add: page_attempts.simps)
  next
    case False
    show ?thesis
    proof (cases "env (requests st)")
      case (Http200 tot its)
      with False "1.prems" show ?thesis
        by (auto simp add: page_attempts.simps [of env attempt st] Let_def split: if_splits)
    next
      case Http429
      with False "1.prems" "1.IH"(1) [OF False Http429] show ?thesis
        by (simp add: page_attempts.simps [of env attempt st])
    next
      case HttpError
      with False "1.prems" show ?thesis
        by (auto simp add: page_attempts.simps [of env attempt st])
    next
      case ConnectionError
      with False "1.prems" "1.IH"(2) [OF False ConnectionError] show ?thesis
        by (simp add: page_attempts.simps [of env attempt st] split: if_splits)
    next
      case Timeout
      with False "1.prems" "1.IH"(3) [OF False Timeout] show ?thesis
        by (simp add: page_attempts.simps [of env attempt st] split: if_splits)
    next
      case Malformed
      with False "1.prems" show ?thesis
        by (auto simp add: page_attempts.simps [of env attempt st])
    qed
  qed
qed

text \<open>
  The outer loop ends: every pass that does not break moves the offset one page on,
  and beyond the expected total only failed pages go on, at most two in a row.
\<close>

definition loop_measure :: "'a fetch_state \<Rightarrow> nat" where
  "loop_measure st =
     4 * (nat (total_items (stats st) - int (offset st)) div LIMIT)
     + (max_consecutive_failures - consecutive_failures st)"

lemma loop_body_Continue:
  assumes "loop_body env st = Continue st'"
  shows "offset st' = offset st + LIMIT \<and>
      total_items (stats st') = total_items (stats st) \<and>
      iterations st' = iterations st + 1 \<and>
      consecutive_failures st' < max_consecutive_failures \<and>
      (consecutive_failures st' = 0 \<and> \<not> total_items (stats st) \<le> int (offset st' + LIMIT)
         \<or> consecutive_failures st' = consecutive_failures st + 1)"
proof -
  obtain r st1 where pa: "page_attempts env 0 (st\<lparr>iterations := iterations st + 1\<rparr>) = (r, st1)"
    by (cases "page_attempts env 0 (st\<lparr>iterations := iterations st + 1\<rparr>)")
  show ?thesis
  proof (cases r)
    case None
    with pa page_attempts_None [of env 0 "st\<lparr>iterations := iterations st + 1\<rparr>" st1] assms
    show ?thesis
      by (auto simp: loop_body_def split: if_splits)
  next
    case (Some items)
    with pa assms have ne: "items \<noteq> []" and nb: "\<not> total_items (stats st1) \<le> int (offset st1 + LIMIT)"
      and eq: "st' = st1"
      by (auto simp: loop_body_def split: if_splits)
    from pa Some page_attempts_Some [of env 0 "st\<lparr>iterations := iterations st + 1\<rparr>" items st1] ne
    have "consecutive_failures st1 = 0" "total_items (stats st1) = total_items (stats st)"
      "iterations st1 = iterations st + 1"
      "(if total_items (stats st) \<le> int (offset st + LIMIT) then offset st1 = offset st
         else offset st1 = offset st + LIMIT)"
      by simp_all
    with nb eq show ?thesis
      by (auto simp: max_consecutive_failures_def split: if_splits)
  qed
qed

lemma loop_measure_decreases:
  assumes "loop_body env st = Continue st'"
  shows "loop_measure st' < loop_measure st"
proof -
  from loop_body_Continue [OF assms]
  have off: "offset st' = offset st + LIMIT"
    and tot: "total_items (stats st') = total_items (stats st)"
    and lt: "consecutive_failures st' < max_consecutive_failures"
    and alt: "consecutive_failures st' = 0 \<and> \<not> total_items (stats st) \<le> int (offset st' + LIMIT)
         \<or> consecutive_failures st' = consecutive_failures st + 1"
    by blast+
  from alt show ?thesis
  proof
    assume a: "consecutive_failures st' = 0 \<and> \<not> total_items (stats st) \<le> int (offset st' + LIMIT)"
    then have "nat (total_items (stats st) - int (offset st))
        = nat (total_items (stats st) - int (offset st')) + LIMIT"
      using off unfolding LIMIT_def by linarith
    then have "nat (total_items (stats st) - int (offset st)) div LIMIT
        = Suc (nat (total_items (stats st) - int (offset st')) div LIMIT)"
      by (simp add: LIMIT_def)
    with a tot show ?thesis
      by (simp add: loop_measure_def max_consecutive_failures_def)
  next
    assume a: "consecutive_failures st' = consecutive_failures st + 1"
    have "nat (total_items (stats st) - int (offset st')) div LIMIT
        \<le> nat (total_items (stats st) - int (offset st)) div LIMIT"
      using off by (intro div_le_mono) simp
    with a tot lt show ?thesis
      by (simp add: loop_measure_def)
  qed
qed

function fetch_loop :: "(nat \<Rightarrow> 'a response) \<Rightarrow> 'a fetch_state \<Rightarrow> 'a fetch_state" where
  "fetch_loop env st =
     (case loop_body env st of Break st' \<Rightarrow> st' | Continue st' \<Rightarrow> fetch_loop env st')"
  by pat_completeness auto
termination
  by (relation "measure (\<lambda>(env, st). loop_measure st)") (auto simp: loop_measure_decreases)

declare fetch_loop.simps [simp del]


text \<open>
  For the bound on the number of passes: the pages from the offset up to the expected
  total, and the passes that may still come.
\<close>

definition pages_left :: "'a fetch_state \<Rightarrow> nat" where
  "pages_left st = nat ((total_items (stats st) - int (offset st) + 99) div 100)"

definition passes_left :: "'a fetch_state \<Rightarrow> nat" where
  "passes_left st =
     (if pages_left st \<le> 1 then max 1 (max_consecutive_failures - consecutive_failures st)
      else pages_left st + 2)"

text \<open>\<open>fetch_single_category\<close> returns \<open>all_items\<close>; the stats object and the outside are
  returned with it.\<close>

definition initial_state :: "CategoryStats \<Rightarrow> world \<Rightarrow> 'a fetch_state" where
  "initial_state cs w =
     \<lparr>requests = requests w, trace = trace w, stats = cs, all_items = [], offset = 0,
      consecutive_failures = 0, iterations = 0\<rparr>"

definition fetch_single_category ::
  "(nat \<Rightarrow> 'a response) \<Rightarrow> CategoryStats \<Rightarrow> world \<Rightarrow> 'a list \<times> CategoryStats \<times> world" where
  "fetch_single_category env cs w =
     (let st = fetch_loop env (initial_state cs w)
      in (all_items st, stats st, \<lparr>requests = requests st, trace = trace st\<rparr>))"

text \<open>
  \<open>collect_all_data\<close>: the loop over the categories. A category whose \<open>total_items\<close> is
  0 is skipped before anything is fetched. The two rows made of a fetched item are
  given by \<open>raw_row\<close> and \<open>analytics_row\<close>, which the loop only applies.
\<close>

fun collect_categories ::
  "(nat \<Rightarrow> 'a response) \<Rightarrow> (int \<Rightarrow> int \<Rightarrow> 'a \<Rightarrow> 'r) \<Rightarrow> (int \<Rightarrow> int \<Rightarrow> 'a \<Rightarrow> 'q) \<Rightarrow>
   CategoryStats list \<Rightarrow> 'r list \<times> 'q list \<times> CategoryStats list \<times> world \<Rightarrow>
   'r list \<times> 'q list \<times> CategoryStats list \<times> world" where
  "collect_categories env raw_row analytics_row [] acc = acc"
| "collect_categories env raw_row analytics_row (cs # rest) (raw_rows, analytics_rows, seen, w) =
     (if total_items cs = 0
      then collect_categories env raw_row analytics_row rest
             (raw_rows, analytics_rows, seen @ [cs], w)
      else case fetch_single_category env cs w of
        (collections, cs', w') \<Rightarrow>
          if collections = []
          then collect_categories env raw_row analytics_row rest
                 (raw_rows, analytics_rows, seen @ [cs'], w')
          else collect_categories env raw_row analytics_row rest
                 (raw_rows @ map (raw_row (subject_type cs) (collection_type cs)) collections,
                  analytics_rows
                    @ map (analytics_row (subject_type cs) (collection_type cs)) collections,
                  seen @ [cs'], w'))"

definition collect_all_data ::
  "(nat \<Rightarrow> 'a response) \<Rightarrow> (int \<Rightarrow> int \<Rightarrow> 'a \<Rightarrow> 'r) \<Rightarrow> (int \<Rightarrow> int \<Rightarrow> 'a \<Rightarrow> 'q) \<Rightarrow>
   CategoryStats list \<Rightarrow> world \<Rightarrow> 'r list \<times> 'q list \<times> CategoryStats list \<times> world" where
  "collect_all_data env raw_row analytics_row all_stats w =
     collect_categories env raw_row analytics_row all_stats ([], [], [], w)"

text \<open>Some servers, statistics and the outside before the first request, for examples.\<close>

definition always_429 :: "nat \<Rightarrow> nat response" where
  "always_429 n = Http429"



definition always_timeout :: "nat \<Rightarrow> nat response" where
  "always_timeout n = Timeout"

definition one_page :: "nat \<Rightarrow> nat response" where
  "one_page n = Http200 (Some (PyInt 250)) [7, 8]"

definition one_page_then_timeouts :: "nat \<Rightarrow> nat response" where
  "one_page_then_timeouts n = (if n = 0 then Http200 (Some (PyInt 1000)) [7, 8] else Timeout)"

definition new_stats :: "int \<Rightarrow> CategoryStats" where
  "new_stats n = \<lparr>subject_type = 2, collection_type = 1, total_items = n,
                  fetched_items = 0, pages_fetched = 0\<rparr>"

definition fresh :: world where
  "fresh = \<lparr>requests = 0, trace = []\<rparr>"


section \<open>Properties of the reconciliation\<close>

lemma df_combined_empty: "df_combined s t = []"
  by (auto simp: df_combined_def common_ids_def delete_ids_def target_id_set_def
      df_target_with_id_def filter_empty_conv)

lemma source_keyed_split:
  "mset (df_new s t) + mset (df_updated s t) = mset (df_source_with_id s)"
proof -
  have "\<And>r. r \<in> set (df_source_with_id s) \<Longrightarrow>
          (subject_id r \<in> common_ids s t) = (subject_id r \<notin> insert_ids s t)"
    by (auto simp: common_ids_def insert_ids_def source_id_set_def)
  then have "df_updated s t = filter (\<lambda>r. subject_id r \<notin> insert_ids s t) (df_source_with_id s)"
    unfolding df_updated_def by (intro filter_cong) auto
  then show ?thesis
    by (simp add: df_new_def)
qed

lemma source_partition: "mset (df_source_with_id s) + mset (df_source_na_id s) = mset s"
  by (simp add: df_source_with_id_def df_source_na_id_def notna_def isna_def)

lemma reconcile_mset: "mset (implement_incremental_load s t) = mset s"
  using source_keyed_split [of s t] source_partition [of s]
  by (simp add: implement_incremental_load_def df_combined_empty add.assoc [symmetric])

lemma filter_isna_with_id: "filter isna (filter notna xs) = []"
  by (induction xs) (auto simp: isna_def notna_def)

lemma filter_notna_na_id: "filter notna (filter isna xs) = []"
  by (induction xs) (auto simp: isna_def notna_def)

lemma filter_isna_na_id: "filter isna (filter isna xs) = filter isna xs"
  by simp

lemma filter_notna_with_id: "filter notna (filter P (filter notna xs)) = filter P (filter notna xs)"
  by (induction xs) auto

lemma filter_isna_keyed: "filter isna (filter P (filter notna xs)) = []"
  by (induction xs) (auto simp: isna_def notna_def)

lemma reconcile_keyless: "filter isna (implement_incremental_load s t) = df_source_na_id s"
proof (cases "t = []")
  case True
  then show ?thesis by (simp add: implement_incremental_load_def df_source_na_id_def)
next
  case False
  then show ?thesis
    unfolding implement_incremental_load_def df_new_def df_updated_def
      df_source_with_id_def df_source_na_id_def
    by (simp only: if_False filter_append df_combined_empty filter.simps append_Nil
        filter_isna_keyed filter_isna_na_id)
qed

lemma reconcile_keyed:
  "t \<noteq> [] \<Longrightarrow> filter notna (implement_incremental_load s t) = df_new s t @ df_updated s t"
  unfolding implement_incremental_load_def df_new_def df_updated_def
    df_source_with_id_def df_source_na_id_def
  by (simp only: if_False filter_append df_combined_empty filter.simps append_Nil append_Nil2
      filter_notna_with_id filter_notna_na_id)

lemma distinct_key_split:
  "distinct (map f xs) \<Longrightarrow>
   distinct (map f (filter (\<lambda>x. f x \<in> A) xs) @ map f (filter (\<lambda>x. f x \<in> B) xs)) = (\<forall>x\<in>set xs. f x \<notin> A \<inter> B)"
  by (induction xs) auto

text \<open>
  C1. For every source snapshot and every previous target the reconciled output has
  exactly the rows of the source (as a multiset: each row as often as the source has
  it), the part taken from the previous target is empty, and on the initial-load path
  the output is the source itself: the diff is a full replace of the target by the
  source.
\<close>

theorem reconcile_is_full_replace:
  "mset (implement_incremental_load s t) = mset (full_replace s t)
   \<and> df_combined s t = []
   \<and> implement_incremental_load s [] = s
   \<and> mset (implement_incremental_load s t)
       = mset (df_source_with_id s) + mset (df_source_na_id s)"
  by (simp add: reconcile_mset full_replace_def df_combined_empty source_partition)
    (simp add: implement_incremental_load_def)

text \<open>
  C2. The three key sets are pairwise disjoint and their union is the union of the
  key sets of the keyed source rows and of the keyed target rows.
\<close>

theorem key_accounting:
  "insert_ids s t \<inter> delete_ids s t = {}
   \<and> insert_ids s t \<inter> common_ids s t = {}
   \<and> delete_ids s t \<inter> common_ids s t = {}
   \<and> insert_ids s t \<union> delete_ids s t \<union> common_ids s t
       = source_id_set s \<union> target_id_set t"
  by (auto simp: insert_ids_def delete_ids_def common_ids_def)

text \<open>
  C3, as stated, fails: the keys of the output are those of the source, so a previous
  target with unique keys does not make the keys of the output unique. Here the target
  has the single key 2 and the source has the key 1 twice; the output has the key 1 twice.
\<close>

theorem target_unique_not_preserved:
  "keys_unique [\<lparr>subject_id = Some 2, payload = (0::nat)\<rparr>]
   \<and> \<not> keys_unique (implement_incremental_load
          [\<lparr>subject_id = Some 1, payload = (0::nat)\<rparr>, \<lparr>subject_id = Some 1, payload = 1\<rparr>]
          [\<lparr>subject_id = Some 2, payload = 0\<rparr>])"
  by (simp add: keys_unique_def implement_incremental_load_def df_combined_def df_new_def
      df_updated_def df_source_na_id_def df_source_with_id_def df_target_with_id_def
      insert_ids_def delete_ids_def common_ids_def source_id_set_def target_id_set_def
      notna_def isna_def)

text \<open>
  C3, amended. If every non-null key occurs at most once among the keyed rows of the
  source snapshot, then every non-null key occurs at most once among the keyed rows of
  the reconciled output, whatever the previous target is.
\<close>

theorem source_unique_preserved:
  "keys_unique s \<Longrightarrow> keys_unique (implement_incremental_load s t)"
proof (cases "t = []")
  case True
  assume "keys_unique s"
  with True show ?thesis by (simp add: implement_incremental_load_def)
next
  case False
  assume u: "keys_unique s"
  have "insert_ids s t \<inter> common_ids s t = {}"
    by (auto simp: insert_ids_def common_ids_def)
  then have "\<forall>x\<in>set (df_source_with_id s). subject_id x \<notin> insert_ids s t \<inter> common_ids s t"
    by simp
  moreover have "distinct (map subject_id (df_source_with_id s))"
    using u by (simp add: keys_unique_def df_source_with_id_def)
  ultimately have "distinct (map subject_id (df_new s t) @ map subject_id (df_updated s t))"
    unfolding df_new_def df_updated_def by (simp only: distinct_key_split)
  then show ?thesis
    using False by (simp add: keys_unique_def reconcile_keyed)
qed

theorem source_unique_preserved_witness:
  "keys_unique [\<lparr>subject_id = Some 1, payload = (0::nat)\<rparr>, \<lparr>subject_id = None, payload = 5\<rparr>,
                \<lparr>subject_id = Some 3, payload = 1\<rparr>]
   \<and> keys_unique (implement_incremental_load
        [\<lparr>subject_id = Some 1, payload = (0::nat)\<rparr>, \<lparr>subject_id = None, payload = 5\<rparr>,
         \<lparr>subject_id = Some 3, payload = 1\<rparr>]
        [\<lparr>subject_id = Some 1, payload = 7\<rparr>, \<lparr>subject_id = Some 1, payload = 8\<rparr>,
         \<lparr>subject_id = Some 2, payload = 9\<rparr>])"
proof -
  have h: "keys_unique [\<lparr>subject_id = Some 1, payload = (0::nat)\<rparr>,
             \<lparr>subject_id = None, payload = 5\<rparr>, \<lparr>subject_id = Some 3, payload = 1\<rparr>]"
    by (simp add: keys_unique_def notna_def)
  show ?thesis
    using h source_unique_preserved [OF h] by simp
qed

text \<open>
  C4. For every source snapshot and every non-empty previous target: the output is the
  part taken from the target followed by the parts taken from the source; the part
  taken from the target has no keyless row; the keyless rows of the output are exactly
  the keyless rows of the source, in their order and number, so that a keyless row of
  the target is in the output only where the source has that very row; and every keyless
  row of the source is in the output.
\<close>

theorem keyless_rows_from_source_only:
  "t \<noteq> [] \<Longrightarrow>
     implement_incremental_load s t
       = df_combined s t @ (df_new s t @ df_updated s t @ df_source_na_id s)
     \<and> filter isna (df_combined s t) = []
     \<and> filter isna (implement_incremental_load s t) = df_source_na_id s
     \<and> set (df_target_na_id t) \<inter> set (implement_incremental_load s t) \<subseteq> set (df_source_na_id s)
     \<and> set (df_source_na_id s) \<subseteq> set (implement_incremental_load s t)"
proof -
  assume ne: "t \<noteq> []"
  have a: "implement_incremental_load s t
       = df_combined s t @ (df_new s t @ df_updated s t @ df_source_na_id s)"
    using ne by (simp add: implement_incremental_load_def)
  have b: "filter isna (df_combined s t) = []"
    by (simp add: df_combined_empty)
  have c: "filter isna (implement_incremental_load s t) = df_source_na_id s"
    by (rule reconcile_keyless)
  have d: "set (df_target_na_id t) \<inter> set (implement_incremental_load s t)
             \<subseteq> set (df_source_na_id s)"
  proof
    fix r assume "r \<in> set (df_target_na_id t) \<inter> set (implement_incremental_load s t)"
    then have "isna r" and "r \<in> set (implement_incremental_load s t)"
      by (auto simp: df_target_na_id_def)
    then have "r \<in> set (filter isna (implement_incremental_load s t))" by simp
    then show "r \<in> set (df_source_na_id s)" by (simp only: c)
  qed
  have e: "set (df_source_na_id s) \<subseteq> set (implement_incremental_load s t)"
    using a by auto
  from a b c d e show ?thesis by blast
qed

theorem keyless_rows_from_source_only_witness:
  "[\<lparr>subject_id = None, payload = (4::nat)\<rparr>, \<lparr>subject_id = Some 1, payload = 9\<rparr>] \<noteq> []
   \<and> filter isna (implement_incremental_load
        [\<lparr>subject_id = Some 1, payload = (0::nat)\<rparr>, \<lparr>subject_id = None, payload = 5\<rparr>]
        [\<lparr>subject_id = None, payload = 4\<rparr>, \<lparr>subject_id = Some 1, payload = 9\<rparr>])
       = [\<lparr>subject_id = None, payload = 5\<rparr>]"
proof -
  have h: "[\<lparr>subject_id = None, payload = (4::nat)\<rparr>, \<lparr>subject_id = Some 1, payload = 9\<rparr>] \<noteq> []"
    by simp
  have "filter isna (implement_incremental_load
        [\<lparr>subject_id = Some 1, payload = (0::nat)\<rparr>, \<lparr>subject_id = None, payload = 5\<rparr>]
        [\<lparr>subject_id = None, payload = 4\<rparr>, \<lparr>subject_id = Some 1, payload = 9\<rparr>])
      = df_source_na_id
          [\<lparr>subject_id = Some 1, payload = (0::nat)\<rparr>, \<lparr>subject_id = None, payload = 5\<rparr>]"
    using keyless_rows_from_source_only [OF h] by blast
  also have "\<dots> = [\<lparr>subject_id = None, payload = 5\<rparr>]"
    by (simp add: df_source_na_id_def isna_def)
  finally show ?thesis
    using h by simp
qed

text \<open>
  C5. Reconciling a snapshot \<open>S\<close> against itself: \<open>insert_ids\<close> and \<open>delete_ids\<close> are
  empty, \<open>common_ids\<close> is the key set of \<open>S\<close>, the key set of the output is the key set
  of \<open>S\<close>, and every keyed row of the output is the source's row: nothing is taken from
  the target copy, nothing is inserted, and the updated rows are all keyed source rows.
\<close>

theorem reconcile_self:
  "insert_ids S S = {}
   \<and> delete_ids S S = {}
   \<and> common_ids S S = source_id_set S
   \<and> set (map subject_id (implement_incremental_load S S)) = set (map subject_id S)
   \<and> df_combined S S = []
   \<and> df_new S S = []
   \<and> df_updated S S = df_source_with_id S"
proof -
  have ids: "target_id_set S = source_id_set S"
    by (simp add: target_id_set_def source_id_set_def df_target_with_id_def df_source_with_id_def)
  have keys: "set (map subject_id (implement_incremental_load S S)) = set (map subject_id S)"
    using reconcile_mset [of S S] by (metis mset_map set_mset_mset)
  have new: "df_new S S = []"
    by (simp add: df_new_def insert_ids_def ids)
  have upd: "df_updated S S = df_source_with_id S"
    by (auto simp: df_updated_def common_ids_def ids source_id_set_def intro: filter_True)
  from ids keys new upd show ?thesis
    by (simp add: insert_ids_def delete_ids_def common_ids_def df_combined_empty)
qed


section \<open>Properties of the category total resolver\<close>

lemma world_session_get [simp]:
  "requests (session_get l off w) = requests w + 1"
  "trace (session_get l off w) = trace w @ [Request l off]"
  by (simp_all add: session_get_def)

lemma world_time_sleep [simp]:
  "requests (time_sleep ms w) = requests w"
  "trace (time_sleep ms w) = trace w @ [Sleep ms]"
  by (simp_all add: time_sleep_def)











section \<open>Properties of the paged fetcher\<close>

subsection \<open>The number of passes and of requests\<close>

lemma page_attempts_world:
  "attempt \<le> MAX_RETRIES \<Longrightarrow>
   iterations (snd (page_attempts env attempt st)) = iterations st
   \<and> requests (snd (page_attempts env attempt st)) + attempt \<le> requests st + MAX_RETRIES"
proof (induction env attempt st rule: page_attempts.induct)
  case (1 env attempt st)
  show ?case
  proof (cases "MAX_RETRIES \<le> attempt")
    case True
    with "1.prems" show ?thesis by (simp add: page_attempts.simps)
  next
    case False
    then have next_ok: "attempt + 1 \<le> MAX_RETRIES" by simp
    show ?thesis
    proof (cases "env (requests st)")
      case (Http200 tot items)
      with False show ?thesis
        by (simp add: page_attempts.simps [of env attempt st] Let_def)
    next
      case Http429
      with False "1.IH"(1) [OF False Http429 next_ok] show ?thesis
        by (simp add: page_attempts.simps [of env attempt st])
    next
      case HttpError
      with False show ?thesis
        by (simp add: page_attempts.simps [of env attempt st])
    next
      case ConnectionError
      with False "1.IH"(2) [OF False ConnectionError next_ok] show ?thesis
        by (simp add: page_attempts.simps [of env attempt st] split: if_splits)
    next
      case Timeout
      with False "1.IH"(3) [OF False Timeout next_ok] show ?thesis
        by (simp add: page_attempts.simps [of env attempt st] split: if_splits)
    next
      case Malformed
      with False show ?thesis
        by (simp add: page_attempts.simps [of env attempt st])
    qed
  qed
qed

lemma loop_body_step:
  assumes "loop_body env st = Break st' \<or> loop_body env st = Continue st'"
  shows "iterations st' = iterations st + 1 \<and> requests st' \<le> requests st + MAX_RETRIES"
  using assms page_attempts_world [of 0 env "st\<lparr>iterations := iterations st + 1\<rparr>"]
  by (cases "page_attempts env 0 (st\<lparr>iterations := iterations st + 1\<rparr>)")
    (auto simp: loop_body_def split: option.splits if_splits)

lemma pages_left_le_1: "(pages_left st \<le> 1) = (total_items (stats st) \<le> int (offset st + LIMIT))"
  unfolding pages_left_def LIMIT_def by linarith

lemma pages_left_step:
  "offset st' = offset st + LIMIT \<Longrightarrow> total_items (stats st') = total_items (stats st) \<Longrightarrow>
   pages_left st' = pages_left st - 1"
  unfolding pages_left_def LIMIT_def by simp

lemma passes_left_decreases:
  assumes "loop_body env st = Continue st'"
  shows "passes_left st' + 1 \<le> passes_left st"
proof -
  from loop_body_Continue [OF assms]
  have off: "offset st' = offset st + LIMIT"
    and tot: "total_items (stats st') = total_items (stats st)"
    and lt: "consecutive_failures st' < max_consecutive_failures"
    and alt: "consecutive_failures st' = 0 \<and> \<not> total_items (stats st) \<le> int (offset st' + LIMIT)
         \<or> consecutive_failures st' = consecutive_failures st + 1"
    by blast+
  have pl: "pages_left st' = pages_left st - 1"
    using off tot by (rule pages_left_step)
  from alt show ?thesis
  proof
    assume "consecutive_failures st' = 0 \<and> \<not> total_items (stats st) \<le> int (offset st' + LIMIT)"
    then have "\<not> total_items (stats st') \<le> int (offset st' + LIMIT)"
      using tot by simp
    then have "\<not> pages_left st' \<le> 1"
      using pages_left_le_1 [of st'] by blast
    with pl show ?thesis
      by (simp add: passes_left_def)
  next
    assume "consecutive_failures st' = consecutive_failures st + 1"
    with pl lt show ?thesis
      by (auto simp: passes_left_def max_consecutive_failures_def)
  qed
qed

lemma fetch_loop_iterations:
  "iterations (fetch_loop env st) \<le> iterations st + passes_left st"
proof (induction env st rule: fetch_loop.induct)
  case (1 env st)
  show ?case
  proof (cases "loop_body env st")
    case (Break st')
    with loop_body_step [of env st st'] have "iterations st' = iterations st + 1"
      by simp
    moreover have "1 \<le> passes_left st"
      by (simp add: passes_left_def)
    ultimately show ?thesis
      using Break by (simp add: fetch_loop.simps [of env st])
  next
    case (Continue st')
    with loop_body_step [of env st st'] "1.IH" [OF Continue] passes_left_decreases [OF Continue]
    show ?thesis
      by (simp add: fetch_loop.simps [of env st])
  qed
qed

lemma fetch_loop_requests:
  "iterations st + 1 \<le> iterations (fetch_loop env st)
   \<and> requests (fetch_loop env st) + MAX_RETRIES * iterations st
       \<le> requests st + MAX_RETRIES * iterations (fetch_loop env st)"
proof (induction env st rule: fetch_loop.induct)
  case (1 env st)
  show ?case
  proof (cases "loop_body env st")
    case (Break st')
    with loop_body_step [of env st st'] show ?thesis
      by (simp add: fetch_loop.simps [of env st])
  next
    case (Continue st')
    with loop_body_step [of env st st'] "1.IH" [OF Continue]
    show ?thesis
      by (simp add: fetch_loop.simps [of env st])
  qed
qed

lemma passes_left_le: "passes_left st \<le> max 1 (pages_left st) + 2"
  unfolding passes_left_def max_consecutive_failures_def by (simp split: if_splits) linarith

lemma pages_left_ceiling:
  "pages_left st
     = nat \<lceil>(real_of_int (total_items (stats st)) - real (offset st)) / real LIMIT\<rceil>"
proof -
  have "\<lceil>(real_of_int (total_items (stats st)) - real (offset st)) / real LIMIT\<rceil>
      = \<lceil>real_of_int (total_items (stats st) - int (offset st)) / real_of_int 100\<rceil>"
    by (simp add: LIMIT_def)
  also have "\<dots> = - ((- (total_items (stats st) - int (offset st))) div 100)"
    by (rule ceiling_divide_eq_div)
  also have "\<dots> = (total_items (stats st) - int (offset st) + 99) div 100"
    by linarith
  finally show ?thesis
    by (simp add: pages_left_def)
qed

text \<open>
  C8. The loop is defined by well-founded recursion, so it ends for every expected
  total and every sequence of responses. Every pass that goes on moves the offset one
  page on; the number of passes is at most \<open>max 1 \<lceil>(total - offset) / LIMIT\<rceil> + 2\<close>,
  and the number of requests at most \<open>MAX_RETRIES\<close> per pass.
\<close>

theorem fetch_loop_bounded:
  "(\<forall>st'. loop_body env st = Continue st' \<longrightarrow> offset st' = offset st + LIMIT)
   \<and> iterations (fetch_loop env st)
       \<le> iterations st
         + max 1 (nat \<lceil>(real_of_int (total_items (stats st)) - real (offset st)) / real LIMIT\<rceil>)
         + 2
   \<and> requests (fetch_loop env st) + MAX_RETRIES * iterations st
       \<le> requests st + MAX_RETRIES * iterations (fetch_loop env st)
   \<and> iterations (fetch_loop env (initial_state cs w))
       \<le> max 1 (nat \<lceil>real_of_int (total_items cs) / real LIMIT\<rceil>) + 2
   \<and> requests (snd (snd (fetch_single_category env cs w)))
       \<le> requests w
         + MAX_RETRIES * (max 1 (nat \<lceil>real_of_int (total_items cs) / real LIMIT\<rceil>) + 2)"
proof -
  have step: "\<forall>st'. loop_body env st = Continue st' \<longrightarrow> offset st' = offset st + LIMIT"
    using loop_body_Continue by blast
  have it: "iterations (fetch_loop env s) \<le> iterations s
         + max 1 (nat \<lceil>(real_of_int (total_items (stats s)) - real (offset s)) / real LIMIT\<rceil>)
         + 2" for s :: "'a fetch_state"
    using fetch_loop_iterations [of env s] passes_left_le [of s]
    by (simp only: pages_left_ceiling [symmetric])
  have rq: "requests (fetch_loop env s) + MAX_RETRIES * iterations s
       \<le> requests s + MAX_RETRIES * iterations (fetch_loop env s)" for s :: "'a fetch_state"
    using fetch_loop_requests [of s env] by blast
  let ?init = "initial_state cs w :: 'a fetch_state"
  have it0: "iterations (fetch_loop env ?init)
       \<le> max 1 (nat \<lceil>real_of_int (total_items cs) / real LIMIT\<rceil>) + 2"
    using it [of ?init] by (simp add: initial_state_def)
  have "requests (fetch_loop env ?init) \<le> requests w + MAX_RETRIES * iterations (fetch_loop env ?init)"
    using rq [of ?init] by (simp add: initial_state_def)
  also have "\<dots> \<le> requests w
         + MAX_RETRIES * (max 1 (nat \<lceil>real_of_int (total_items cs) / real LIMIT\<rceil>) + 2)"
    using it0 by (intro add_left_mono mult_le_mono2)
  finally have rq0: "requests (snd (snd (fetch_single_category env cs w)))
       \<le> requests w
         + MAX_RETRIES * (max 1 (nat \<lceil>real_of_int (total_items cs) / real LIMIT\<rceil>) + 2)"
    by (simp add: fetch_single_category_def Let_def)
  from step it [of st] rq [of st] it0 rq0 show ?thesis
    by blast
qed

theorem fetch_loop_bounded_witness:
  "loop_body one_page (initial_state (new_stats 250) fresh)
     = Continue \<lparr>requests = 1, trace = [Request 100 0, Sleep 500],
         stats = \<lparr>subject_type = 2, collection_type = 1, total_items = 250,
                   fetched_items = 2, pages_fetched = 1\<rparr>,
         all_items = [7, 8], offset = 100, consecutive_failures = 0, iterations = 1\<rparr>
   \<and> offset \<lparr>requests = 1, trace = [Request 100 0, Sleep 500],
         stats = \<lparr>subject_type = 2, collection_type = 1, total_items = 250,
                   fetched_items = 2, pages_fetched = 1\<rparr>,
         all_items = [7, 8 :: nat], offset = 100, consecutive_failures = 0, iterations = 1\<rparr>
       = offset (initial_state (new_stats 250) fresh :: nat fetch_state) + LIMIT
   \<and> iterations (fetch_loop one_page (initial_state (new_stats 250) fresh)) \<le> 5"
proof -
  let ?s0 = "initial_state (new_stats 250) fresh :: nat fetch_state"
  let ?s1 = "\<lparr>requests = 1, trace = [Request 100 0, Sleep 500],
         stats = \<lparr>subject_type = 2, collection_type = 1, total_items = 250,
                   fetched_items = 2, pages_fetched = 1\<rparr>,
         all_items = [7, 8 :: nat], offset = 100, consecutive_failures = 0, iterations = 1\<rparr>"
  have lb: "loop_body one_page ?s0 = Continue ?s1"
    by (simp add: loop_body_def page_attempts.simps one_page_def initial_state_def new_stats_def
        fresh_def session_get_def time_sleep_def LIMIT_def MAX_RETRIES_def)
  note inst = fetch_loop_bounded [of one_page ?s0 "new_stats 250" fresh]
  from inst lb have "offset ?s1 = offset ?s0 + LIMIT"
    by blast
  moreover from inst have "iterations (fetch_loop one_page ?s0)
       \<le> max 1 (nat \<lceil>real_of_int (total_items (new_stats 250)) / real LIMIT\<rceil>) + 2"
    by blast
  moreover have "max 1 (nat \<lceil>real_of_int (total_items (new_stats 250)) / real LIMIT\<rceil>) + 2 = 5"
    by (simp add: new_stats_def LIMIT_def)
  ultimately show ?thesis
    using lb by simp
qed


subsection \<open>Categories without items\<close>

lemma collect_all_zero:
  "\<forall>c\<in>set cs. total_items c = 0 \<Longrightarrow>
   collect_categories env raw_row analytics_row cs (r, a, seen, w) = (r, a, seen @ cs, w)"
  by (induction cs arbitrary: seen) simp_all

lemma page_attempts_sends:
  "requests st + (if attempt < MAX_RETRIES then 1 else 0)
     \<le> requests (snd (page_attempts env attempt st))"
proof (induction env attempt st rule: page_attempts.induct)
  case (1 env attempt st)
  show ?case
  proof (cases "MAX_RETRIES \<le> attempt")
    case True
    then show ?thesis by (simp add: page_attempts.simps)
  next
    case False
    show ?thesis
    proof (cases "env (requests st)")
      case (Http200 tot items)
      with False show ?thesis
        by (simp add: page_attempts.simps [of env attempt st] Let_def)
    next
      case Http429
      with False "1.IH"(1) [OF False Http429] show ?thesis
        by (simp add: page_attempts.simps [of env attempt st] split: if_splits)
    next
      case HttpError
      with False show ?thesis
        by (simp add: page_attempts.simps [of env attempt st])
    next
      case ConnectionError
      with False "1.IH"(2) [OF False ConnectionError] show ?thesis
        by (simp add: page_attempts.simps [of env attempt st] split: if_splits)
    next
      case Timeout
      with False "1.IH"(3) [OF False Timeout] show ?thesis
        by (simp add: page_attempts.simps [of env attempt st] split: if_splits)
    next
      case Malformed
      with False show ?thesis
        by (simp add: page_attempts.simps [of env attempt st])
    qed
  qed
qed

lemma loop_body_sends:
  assumes "loop_body env st = Break st' \<or> loop_body env st = Continue st'"
  shows "requests st + 1 \<le> requests st'"
  using assms page_attempts_sends [of "st\<lparr>iterations := iterations st + 1\<rparr>" 0 env]
  by (cases "page_attempts env 0 (st\<lparr>iterations := iterations st + 1\<rparr>)")
    (auto simp: loop_body_def MAX_RETRIES_def split: option.splits if_splits)

lemma fetch_loop_sends: "requests st + 1 \<le> requests (fetch_loop env st)"
proof (induction env st rule: fetch_loop.induct)
  case (1 env st)
  show ?case
  proof (cases "loop_body env st")
    case (Break st')
    with loop_body_sends [of env st st'] show ?thesis
      by (simp add: fetch_loop.simps [of env st])
  next
    case (Continue st')
    with loop_body_sends [of env st st'] "1.IH" [OF Continue] show ?thesis
      by (simp add: fetch_loop.simps [of env st])
  qed
qed

lemma fetch_zero_total_first_page:
  assumes "total_items cs = 0" and "env (requests w) = Http200 tot items"
  shows "fst (fetch_single_category env cs w) = items
     \<and> snd (snd (fetch_single_category env cs w)) = session_get LIMIT 0 w"
  using assms
  by (simp add: fetch_single_category_def fetch_loop.simps loop_body_def
      page_attempts.simps [of env 0] initial_state_def Let_def MAX_RETRIES_def session_get_def)

text \<open>
  C9, as stated, fails of the fetcher: \<open>fetch_single_category\<close> does not look at the
  expected total before its first request. With the expected total 0 and a server that
  has a page of two items, it sends one page request and returns the two items.
\<close>

theorem fetch_single_category_unguarded:
  "fetch_single_category one_page (new_stats 0) fresh
     = ([7, 8],
        \<lparr>subject_type = 2, collection_type = 1, total_items = 0,
          fetched_items = 2, pages_fetched = 1\<rparr>,
        \<lparr>requests = 1, trace = [Request 100 0]\<rparr>)"
  by (simp add: fetch_single_category_def fetch_loop.simps loop_body_def page_attempts.simps
      one_page_def initial_state_def new_stats_def fresh_def session_get_def time_sleep_def
      LIMIT_def MAX_RETRIES_def)

text \<open>
  C9, amended. A category whose expected total is 0 is skipped by \<open>collect_all_data\<close>
  before \<open>fetch_single_category\<close> is called: the rows collected so far and the outside
  (the number of requests and the trace) are what they were, so the category contributes
  no row and no page request; when every category has the total 0, nothing is collected
  and nothing is requested. The fetcher itself has no such guard: whatever the expected
  total, \<open>fetch_single_category\<close> sends at least one page request, and with the expected
  total 0 and a first response that succeeds it returns the items of that response after
  exactly that one request.
\<close>

theorem zero_total_category_is_skipped:
  "(total_items c = 0 \<longrightarrow>
      collect_categories env raw_row analytics_row (c # rest) (r, a, seen, w)
        = collect_categories env raw_row analytics_row rest (r, a, seen @ [c], w))
   \<and> ((\<forall>c\<in>set cs. total_items c = 0) \<longrightarrow>
      collect_all_data env raw_row analytics_row cs w = ([], [], cs, w))
   \<and> requests w + 1 \<le> requests (snd (snd (fetch_single_category env c w)))
   \<and> (total_items c = 0 \<and> env (requests w) = Http200 tot items \<longrightarrow>
        fst (fetch_single_category env c w) = items
        \<and> snd (snd (fetch_single_category env c w)) = session_get LIMIT 0 w)"
proof -
  have "requests w + 1 \<le> requests (snd (snd (fetch_single_category env c w)))"
    using fetch_loop_sends [of "initial_state c w" env]
    by (simp add: fetch_single_category_def Let_def initial_state_def)
  then show ?thesis
    using fetch_zero_total_first_page [of c env w tot items]
    by (simp add: collect_all_data_def collect_all_zero)
qed

theorem zero_total_category_is_skipped_witness:
  "collect_categories one_page (\<lambda>s c x. x) (\<lambda>s c x. x) [new_stats 0] ([], [], [], fresh)
     = ([], [], [new_stats 0], fresh)
   \<and> collect_all_data one_page (\<lambda>s c x. x) (\<lambda>s c x. x) [new_stats 0, new_stats 0] fresh
     = ([], [], [new_stats 0, new_stats 0], fresh)
   \<and> fst (fetch_single_category one_page (new_stats 0) fresh) = [7, 8]
   \<and> snd (snd (fetch_single_category one_page (new_stats 0) fresh))
     = \<lparr>requests = 1, trace = [Request 100 0]\<rparr>"
proof -
  have z: "total_items (new_stats 0) = 0"
    by (simp add: new_stats_def)
  have zs: "\<forall>c\<in>set [new_stats 0, new_stats 0]. total_items c = 0"
    by (simp add: new_stats_def)
  have first: "one_page (requests fresh) = Http200 (Some (PyInt 250)) [7, 8]"
    by (simp add: one_page_def)
  note inst = zero_total_category_is_skipped
    [where c = "new_stats 0" and env = one_page and raw_row = "\<lambda>s c x. x"
       and analytics_row = "\<lambda>s c x. x" and rest = "[]" and r = "[]" and a = "[]"
       and seen = "[]" and w = fresh and cs = "[new_stats 0, new_stats 0]"
       and tot = "Some (PyInt 250)" and items = "[7, 8]"]
  from inst z
  have "collect_categories one_page (\<lambda>s c x. x) (\<lambda>s c x. x) [new_stats 0] ([], [], [], fresh)
      = collect_categories one_page (\<lambda>s c x. x) (\<lambda>s c x. x) [] ([], [], [] @ [new_stats 0], fresh)"
    by blast
  moreover from inst zs
  have "collect_all_data one_page (\<lambda>s c x. x) (\<lambda>s c x. x) [new_stats 0, new_stats 0] fresh
     = ([], [], [new_stats 0, new_stats 0], fresh)"
    by blast
  moreover from inst z first
  have "fst (fetch_single_category one_page (new_stats 0) fresh) = [7, 8]
     \<and> snd (snd (fetch_single_category one_page (new_stats 0) fresh))
         = session_get LIMIT 0 fresh"
    by blast
  ultimately show ?thesis
    by (simp add: session_get_def fresh_def LIMIT_def)
qed


subsection \<open>Rate limiting\<close>

lemma page_attempts_429:
  "attempt < MAX_RETRIES \<Longrightarrow> env (requests st) = Http429 \<Longrightarrow>
   page_attempts env attempt st
     = page_attempts env (attempt + 1) (time_sleep 10000 (session_get LIMIT (offset st) st))"
  by (simp add: page_attempts.simps [of env attempt st])

lemma page_attempts_done: "MAX_RETRIES \<le> attempt \<Longrightarrow> page_attempts env attempt st = (None, st)"
  by (simp add: page_attempts.simps [of env attempt st])

lemma page_attempts_all_429:
  assumes "\<forall>i<MAX_RETRIES. env (requests st + i) = Http429"
  shows "page_attempts env 0 st
     = (None, st\<lparr>requests := requests st + MAX_RETRIES,
                 trace := trace st @ [Request LIMIT (offset st), Sleep 10000,
                   Request LIMIT (offset st), Sleep 10000,
                   Request LIMIT (offset st), Sleep 10000]\<rparr>)"
proof -
  from assms have h: "\<And>i. i < 3 \<Longrightarrow> env (requests st + i) = Http429"
    by (simp add: MAX_RETRIES_def)
  define s1 where "s1 = time_sleep 10000 (session_get LIMIT (offset st) st)"
  define s2 where "s2 = time_sleep 10000 (session_get LIMIT (offset s1) s1)"
  define s3 where "s3 = time_sleep 10000 (session_get LIMIT (offset s2) s2)"
  have r: "requests s1 = requests st + 1" "requests s2 = requests st + 2"
    by (simp_all add: s1_def s2_def)
  have "page_attempts env 0 st = page_attempts env (0 + 1) s1"
    unfolding s1_def by (rule page_attempts_429) (use h [of 0] in \<open>simp_all add: MAX_RETRIES_def\<close>)
  also have "\<dots> = page_attempts env (0 + 1 + 1) s2"
    unfolding s2_def by (rule page_attempts_429) (use h [of 1] r in \<open>simp_all add: MAX_RETRIES_def\<close>)
  also have "\<dots> = page_attempts env (0 + 1 + 1 + 1) s3"
    unfolding s3_def by (rule page_attempts_429) (use h [of 2] r in \<open>simp_all add: MAX_RETRIES_def\<close>)
  also have "\<dots> = (None, s3)"
    by (rule page_attempts_done) (simp add: MAX_RETRIES_def)
  finally show ?thesis
    by (simp add: s1_def s2_def s3_def session_get_def time_sleep_def MAX_RETRIES_def)
qed

text \<open>
  C6, as stated, fails: a response with the status 429 takes one of the \<open>MAX_RETRIES\<close>
  attempts of its page. With a server that always answers 429, the first pass sends
  three requests at the offset 0 and then gives the page up: the consecutive-failure
  counter is 1 and the offset is 100.
\<close>

theorem rate_limit_counts_as_failure:
  "loop_body always_429 (initial_state (new_stats 1000) fresh)
     = Continue \<lparr>requests = 3,
         trace = [Request 100 0, Sleep 10000, Request 100 0, Sleep 10000,
                  Request 100 0, Sleep 10000],
         stats = new_stats 1000, all_items = [], offset = 100,
         consecutive_failures = 1, iterations = 1\<rparr>"
proof -
  have "\<forall>i<MAX_RETRIES. always_429
          (requests ((initial_state (new_stats 1000) fresh :: nat fetch_state)
             \<lparr>iterations := iterations (initial_state (new_stats 1000) fresh :: nat fetch_state) + 1\<rparr>) + i)
        = Http429"
    by (simp add: always_429_def)
  from page_attempts_all_429 [OF this] show ?thesis
    by (simp add: loop_body_def initial_state_def fresh_def MAX_RETRIES_def LIMIT_def
        max_consecutive_failures_def)
qed

text \<open>
  C6, amended. A response with the status 429 makes the fetcher sleep ten seconds and
  go on to the next attempt of the same page, one attempt later, with the offset, the
  items and the consecutive-failure counter as they were; after the last attempt the
  page has failed. A page whose \<open>MAX_RETRIES\<close> attempts all get 429 fails after three
  requests at the same offset.
\<close>

theorem rate_limit_uses_an_attempt:
  "(attempt < MAX_RETRIES \<and> env (requests st) = Http429 \<longrightarrow>
     page_attempts env attempt st
       = page_attempts env (attempt + 1) (time_sleep 10000 (session_get LIMIT (offset st) st))
     \<and> offset (time_sleep 10000 (session_get LIMIT (offset st) st)) = offset st
     \<and> consecutive_failures (time_sleep 10000 (session_get LIMIT (offset st) st))
         = consecutive_failures st
     \<and> all_items (time_sleep 10000 (session_get LIMIT (offset st) st)) = all_items st
     \<and> (attempt + 1 = MAX_RETRIES \<longrightarrow>
          page_attempts env attempt st
            = (None, time_sleep 10000 (session_get LIMIT (offset st) st))))
   \<and> ((\<forall>i<MAX_RETRIES. env (requests st + i) = Http429) \<longrightarrow>
        page_attempts env 0 st
          = (None, st\<lparr>requests := requests st + MAX_RETRIES,
                      trace := trace st @ [Request LIMIT (offset st), Sleep 10000,
                        Request LIMIT (offset st), Sleep 10000,
                        Request LIMIT (offset st), Sleep 10000]\<rparr>))"
  by (auto simp: page_attempts_429 page_attempts_done page_attempts_all_429)

theorem rate_limit_uses_an_attempt_witness:
  "page_attempts always_429 2 (initial_state (new_stats 1000) fresh)
     = (None, \<lparr>requests = 1, trace = [Request 100 0, Sleep 10000], stats = new_stats 1000,
          all_items = ([] :: nat list), offset = 0, consecutive_failures = 0, iterations = 0\<rparr>)
   \<and> page_attempts always_429 0 (initial_state (new_stats 1000) fresh)
     = (None, \<lparr>requests = 3,
          trace = [Request 100 0, Sleep 10000, Request 100 0, Sleep 10000,
                   Request 100 0, Sleep 10000],
          stats = new_stats 1000, all_items = ([] :: nat list), offset = 0,
          consecutive_failures = 0, iterations = 0\<rparr>)"
proof -
  let ?st = "initial_state (new_stats 1000) fresh :: nat fetch_state"
  have a: "2 < MAX_RETRIES \<and> always_429 (requests ?st) = Http429"
    by (simp add: MAX_RETRIES_def always_429_def)
  have b: "2 + 1 = MAX_RETRIES"
    by (simp add: MAX_RETRIES_def)
  have c: "\<forall>i<MAX_RETRIES. always_429 (requests ?st + i) = Http429"
    by (simp add: always_429_def)
  from rate_limit_uses_an_attempt [of 2 always_429 ?st] a b
  have "page_attempts always_429 2 ?st
      = (None, time_sleep 10000 (session_get LIMIT (offset ?st) ?st))"
    by blast
  moreover from rate_limit_uses_an_attempt [of 2 always_429 ?st] c
  have "page_attempts always_429 0 ?st
      = (None, ?st\<lparr>requests := requests ?st + MAX_RETRIES,
                   trace := trace ?st @ [Request LIMIT (offset ?st), Sleep 10000,
                     Request LIMIT (offset ?st), Sleep 10000,
                     Request LIMIT (offset ?st), Sleep 10000]\<rparr>)"
    by blast
  ultimately show ?thesis
    by (simp add: initial_state_def fresh_def session_get_def time_sleep_def LIMIT_def
        MAX_RETRIES_def)
qed

subsection \<open>Failed pages\<close>

lemma page_attempts_transient:
  "attempt < MAX_RETRIES \<Longrightarrow> env (requests st) = ConnectionError \<or> env (requests st) = Timeout \<Longrightarrow>
   page_attempts env attempt st
     = page_attempts env (attempt + 1)
         (if attempt < MAX_RETRIES - 1
          then time_sleep (RETRY_BACKOFF * 2 ^ attempt) (session_get LIMIT (offset st) st)
          else session_get LIMIT (offset st) st)"
  by (auto simp: page_attempts.simps [of env attempt st] wait_time_def)

lemma page_attempts_all_transient:
  assumes "\<forall>i<MAX_RETRIES. env (requests st + i) = ConnectionError \<or> env (requests st + i) = Timeout"
  shows "page_attempts env 0 st
     = (None, st\<lparr>requests := requests st + MAX_RETRIES,
                 trace := trace st @ [Request LIMIT (offset st), Sleep 1000,
                   Request LIMIT (offset st), Sleep 2000, Request LIMIT (offset st)]\<rparr>)"
proof -
  from assms have h: "\<And>i. i < 3 \<Longrightarrow>
      env (requests st + i) = ConnectionError \<or> env (requests st + i) = Timeout"
    by (simp add: MAX_RETRIES_def)
  define s1 where "s1 = time_sleep (RETRY_BACKOFF * 2 ^ 0) (session_get LIMIT (offset st) st)"
  define s2 where "s2 = time_sleep (RETRY_BACKOFF * 2 ^ (0 + 1)) (session_get LIMIT (offset s1) s1)"
  define s3 where "s3 = session_get LIMIT (offset s2) s2"
  have r: "requests s1 = requests st + 1" "requests s2 = requests st + 2"
    by (simp_all add: s1_def s2_def)
  have "page_attempts env 0 st = page_attempts env (0 + 1) s1"
    using page_attempts_transient [of 0 env st] h [of 0] by (simp add: s1_def MAX_RETRIES_def)
  also have "\<dots> = page_attempts env (0 + 1 + 1) s2"
    using page_attempts_transient [of "0 + 1" env s1] h [of 1] r
    by (simp add: s2_def MAX_RETRIES_def)
  also have "\<dots> = page_attempts env (0 + 1 + 1 + 1) s3"
    using page_attempts_transient [of "0 + 1 + 1" env s2] h [of 2] r
    by (simp add: s3_def MAX_RETRIES_def)
  also have "\<dots> = (None, s3)"
    by (rule page_attempts_done) (simp add: MAX_RETRIES_def)
  finally show ?thesis
    by (simp add: s1_def s2_def s3_def session_get_def time_sleep_def MAX_RETRIES_def
        RETRY_BACKOFF_def)
qed

lemma failed_page:
  assumes "page_attempts env 0 (st\<lparr>iterations := iterations st + 1\<rparr>) = (None, st1)"
  shows "all_items st1 = all_items st \<and> offset st1 = offset st
     \<and> consecutive_failures st1 = consecutive_failures st
     \<and> loop_body env st
         = (if max_consecutive_failures \<le> consecutive_failures st + 1
            then Break (st1\<lparr>consecutive_failures := consecutive_failures st + 1\<rparr>)
            else Continue (st1\<lparr>consecutive_failures := consecutive_failures st + 1,
                                offset := offset st + LIMIT\<rparr>))"
  using assms page_attempts_None [OF assms] by (simp add: loop_body_def)

lemma failed_page_loop:
  assumes "page_attempts env 0 (st\<lparr>iterations := iterations st + 1\<rparr>) = (None, st1)"
  shows "fetch_loop env st
         = (if max_consecutive_failures \<le> consecutive_failures st + 1
            then st1\<lparr>consecutive_failures := consecutive_failures st + 1\<rparr>
            else fetch_loop env (st1\<lparr>consecutive_failures := consecutive_failures st + 1,
                                offset := offset st + LIMIT\<rparr>))"
  using failed_page [OF assms] by (simp add: fetch_loop.simps [of env st])

lemma three_failed_pages:
  assumes z: "consecutive_failures st = 0"
    and p1: "page_attempts env 0 (st\<lparr>iterations := iterations st + 1\<rparr>) = (None, st1)"
    and p2: "page_attempts env 0
          (st1\<lparr>consecutive_failures := 1, offset := offset st + LIMIT,
               iterations := iterations st1 + 1\<rparr>) = (None, st2)"
    and p3: "page_attempts env 0
          (st2\<lparr>consecutive_failures := 2, offset := offset st + LIMIT + LIMIT,
               iterations := iterations st2 + 1\<rparr>) = (None, st3)"
  shows "all_items (fetch_loop env st) = all_items st
     \<and> consecutive_failures (fetch_loop env st) = max_consecutive_failures"
proof -
  define t1 where "t1 = st1\<lparr>consecutive_failures := 1, offset := offset st + LIMIT\<rparr>"
  define t2 where "t2 = st2\<lparr>consecutive_failures := 2, offset := offset st + LIMIT + LIMIT\<rparr>"
  have q2: "page_attempts env 0 (t1\<lparr>iterations := iterations t1 + 1\<rparr>) = (None, st2)"
    and q3: "page_attempts env 0 (t2\<lparr>iterations := iterations t2 + 1\<rparr>) = (None, st3)"
    using p2 p3 by (simp_all add: t1_def t2_def)
  have f1: "fetch_loop env st = fetch_loop env t1"
    using failed_page_loop [OF p1] z by (simp add: t1_def max_consecutive_failures_def)
  have n2: "all_items st2 = all_items t1 \<and> offset st2 = offset t1"
    using failed_page [OF q2] by simp
  have f2: "fetch_loop env t1 = fetch_loop env t2"
    using failed_page_loop [OF q2] n2
    by (simp add: t1_def t2_def max_consecutive_failures_def numeral_2_eq_2)
  have f3: "fetch_loop env t2 = st3\<lparr>consecutive_failures := 3\<rparr>"
    using failed_page_loop [OF q3] by (simp add: t2_def max_consecutive_failures_def)
  have "all_items st3 = all_items st"
    using failed_page [OF p1] failed_page [OF q2] failed_page [OF q3]
    by (simp add: t1_def t2_def)
  with f1 f2 f3 show ?thesis
    by (simp add: max_consecutive_failures_def)
qed

text \<open>
  C7. When the attempts of a page end without success, nothing is added to the items;
  below the threshold the consecutive-failure counter goes up by one, the offset moves
  one page on and the loop goes on from there; when the counter reaches
  \<open>max_consecutive_failures\<close> the loop stops and the result has exactly the items
  accumulated so far. Three failed pages in a row, from a counter of 0, end the fetch
  with the items it had and the counter 3. Three connection errors or timeouts on one
  page are such a failure, after the sleeps of one and two seconds. What
  \<open>fetch_single_category\<close> returns is the list of items of the state in which the loop
  ends, and a pass that goes on hands the loop over to the state it leaves: when the
  loop has come to a state with the counter 0 and the next three pages fail,
  \<open>fetch_single_category\<close> returns exactly the items of that state.
\<close>

theorem failed_page_is_skipped_or_aborts:
  "(page_attempts env 0 (st\<lparr>iterations := iterations st + 1\<rparr>) = (None, st1) \<longrightarrow>
      all_items st1 = all_items st
      \<and> (consecutive_failures st + 1 < max_consecutive_failures \<longrightarrow>
           loop_body env st
             = Continue (st1\<lparr>consecutive_failures := consecutive_failures st + 1,
                             offset := offset st + LIMIT\<rparr>)
           \<and> fetch_loop env st
             = fetch_loop env (st1\<lparr>consecutive_failures := consecutive_failures st + 1,
                                   offset := offset st + LIMIT\<rparr>))
      \<and> (max_consecutive_failures \<le> consecutive_failures st + 1 \<longrightarrow>
           loop_body env st = Break (st1\<lparr>consecutive_failures := consecutive_failures st + 1\<rparr>)
           \<and> fetch_loop env st = st1\<lparr>consecutive_failures := consecutive_failures st + 1\<rparr>
           \<and> all_items (fetch_loop env st) = all_items st
           \<and> consecutive_failures (fetch_loop env st) = consecutive_failures st + 1))
   \<and> (consecutive_failures st = 0
      \<and> page_attempts env 0 (st\<lparr>iterations := iterations st + 1\<rparr>) = (None, st1)
      \<and> page_attempts env 0
          (st1\<lparr>consecutive_failures := 1, offset := offset st + LIMIT,
               iterations := iterations st1 + 1\<rparr>) = (None, st2)
      \<and> page_attempts env 0
          (st2\<lparr>consecutive_failures := 2, offset := offset st + LIMIT + LIMIT,
               iterations := iterations st2 + 1\<rparr>) = (None, st3) \<longrightarrow>
      all_items (fetch_loop env st) = all_items st
      \<and> consecutive_failures (fetch_loop env st) = max_consecutive_failures)
   \<and> ((\<forall>i<MAX_RETRIES. env (requests st + i) = ConnectionError
                        \<or> env (requests st + i) = Timeout) \<longrightarrow>
      page_attempts env 0 st
        = (None, st\<lparr>requests := requests st + MAX_RETRIES,
                    trace := trace st @ [Request LIMIT (offset st), Sleep 1000,
                      Request LIMIT (offset st), Sleep 2000, Request LIMIT (offset st)]\<rparr>))
   \<and> fst (fetch_single_category env cs w) = all_items (fetch_loop env (initial_state cs w))
   \<and> (loop_body env st0 = Continue st \<longrightarrow> fetch_loop env st0 = fetch_loop env st)
   \<and> (fetch_loop env (initial_state cs w) = fetch_loop env st
      \<and> consecutive_failures st = 0
      \<and> page_attempts env 0 (st\<lparr>iterations := iterations st + 1\<rparr>) = (None, st1)
      \<and> page_attempts env 0
          (st1\<lparr>consecutive_failures := 1, offset := offset st + LIMIT,
               iterations := iterations st1 + 1\<rparr>) = (None, st2)
      \<and> page_attempts env 0
          (st2\<lparr>consecutive_failures := 2, offset := offset st + LIMIT + LIMIT,
               iterations := iterations st2 + 1\<rparr>) = (None, st3) \<longrightarrow>
      fst (fetch_single_category env cs w) = all_items st)"
proof (intro conjI impI)
  assume a: "page_attempts env 0 (st\<lparr>iterations := iterations st + 1\<rparr>) = (None, st1)"
  show "all_items st1 = all_items st"
    using failed_page [OF a] by simp
  {
    assume "consecutive_failures st + 1 < max_consecutive_failures"
    then show "loop_body env st
             = Continue (st1\<lparr>consecutive_failures := consecutive_failures st + 1,
                             offset := offset st + LIMIT\<rparr>)"
      and "fetch_loop env st
             = fetch_loop env (st1\<lparr>consecutive_failures := consecutive_failures st + 1,
                                   offset := offset st + LIMIT\<rparr>)"
      using failed_page [OF a] failed_page_loop [OF a] by simp_all
  }
  {
    assume "max_consecutive_failures \<le> consecutive_failures st + 1"
    then show "loop_body env st = Break (st1\<lparr>consecutive_failures := consecutive_failures st + 1\<rparr>)"
      and "fetch_loop env st = st1\<lparr>consecutive_failures := consecutive_failures st + 1\<rparr>"
      and "all_items (fetch_loop env st) = all_items st"
      and "consecutive_failures (fetch_loop env st) = consecutive_failures st + 1"
      using failed_page [OF a] failed_page_loop [OF a] by simp_all
  }
next
  assume three: "consecutive_failures st = 0
      \<and> page_attempts env 0 (st\<lparr>iterations := iterations st + 1\<rparr>) = (None, st1)
      \<and> page_attempts env 0
          (st1\<lparr>consecutive_failures := 1, offset := offset st + LIMIT,
               iterations := iterations st1 + 1\<rparr>) = (None, st2)
      \<and> page_attempts env 0
          (st2\<lparr>consecutive_failures := 2, offset := offset st + LIMIT + LIMIT,
               iterations := iterations st2 + 1\<rparr>) = (None, st3)"
  then have "all_items (fetch_loop env st) = all_items st
     \<and> consecutive_failures (fetch_loop env st) = max_consecutive_failures"
    by (intro three_failed_pages [of st env st1 st2 st3]) blast+
  then show "all_items (fetch_loop env st) = all_items st"
    and "consecutive_failures (fetch_loop env st) = max_consecutive_failures"
    by blast+
next
  assume "\<forall>i<MAX_RETRIES. env (requests st + i) = ConnectionError
                        \<or> env (requests st + i) = Timeout"
  then show "page_attempts env 0 st
        = (None, st\<lparr>requests := requests st + MAX_RETRIES,
                    trace := trace st @ [Request LIMIT (offset st), Sleep 1000,
                      Request LIMIT (offset st), Sleep 2000, Request LIMIT (offset st)]\<rparr>)"
    by (rule page_attempts_all_transient)
next
  show "fst (fetch_single_category env cs w) = all_items (fetch_loop env (initial_state cs w))"
    by (simp add: fetch_single_category_def Let_def)
next
  assume "loop_body env st0 = Continue st"
  then show "fetch_loop env st0 = fetch_loop env st"
    by (simp add: fetch_loop.simps [of env st0])
next
  assume reached: "fetch_loop env (initial_state cs w) = fetch_loop env st
      \<and> consecutive_failures st = 0
      \<and> page_attempts env 0 (st\<lparr>iterations := iterations st + 1\<rparr>) = (None, st1)
      \<and> page_attempts env 0
          (st1\<lparr>consecutive_failures := 1, offset := offset st + LIMIT,
               iterations := iterations st1 + 1\<rparr>) = (None, st2)
      \<and> page_attempts env 0
          (st2\<lparr>consecutive_failures := 2, offset := offset st + LIMIT + LIMIT,
               iterations := iterations st2 + 1\<rparr>) = (None, st3)"
  then have "all_items (fetch_loop env st) = all_items st
     \<and> consecutive_failures (fetch_loop env st) = max_consecutive_failures"
    by (intro three_failed_pages [of st env st1 st2 st3]) blast+
  with reached show "fst (fetch_single_category env cs w) = all_items st"
    by (simp add: fetch_single_category_def Let_def)
qed

theorem failed_page_is_skipped_or_aborts_witness:
  "loop_body always_timeout (initial_state (new_stats 1000) fresh)
     = Continue \<lparr>requests = 3,
         trace = [Request 100 0, Sleep 1000, Request 100 0, Sleep 2000, Request 100 0],
         stats = new_stats 1000, all_items = ([] :: nat list), offset = 100,
         consecutive_failures = 1, iterations = 1\<rparr>
   \<and> all_items (fetch_loop always_timeout (initial_state (new_stats 1000) fresh)) = ([] :: nat list)
   \<and> consecutive_failures (fetch_loop always_timeout
        (initial_state (new_stats 1000) fresh :: nat fetch_state)) = 3
   \<and> loop_body one_page_then_timeouts (initial_state (new_stats 1000) fresh)
     = Continue \<lparr>requests = 1, trace = [Request 100 0, Sleep 500],
         stats = \<lparr>subject_type = 2, collection_type = 1, total_items = 1000,
                   fetched_items = 2, pages_fetched = 1\<rparr>,
         all_items = [7, 8], offset = 100, consecutive_failures = 0, iterations = 1\<rparr>
   \<and> fst (fetch_single_category one_page_then_timeouts (new_stats 1000) fresh) = [7, 8]"
proof -
  let ?s0 = "initial_state (new_stats 1000) fresh :: nat fetch_state"
  define u0 where "u0 = ?s0\<lparr>iterations := iterations ?s0 + 1\<rparr>"
  define s1 where "s1 = u0\<lparr>requests := requests u0 + MAX_RETRIES,
      trace := trace u0 @ [Request LIMIT (offset u0), Sleep 1000,
        Request LIMIT (offset u0), Sleep 2000, Request LIMIT (offset u0)]\<rparr>"
  define u1 where "u1 = s1\<lparr>consecutive_failures := 1, offset := offset ?s0 + LIMIT,
      iterations := iterations s1 + 1\<rparr>"
  define s2 where "s2 = u1\<lparr>requests := requests u1 + MAX_RETRIES,
      trace := trace u1 @ [Request LIMIT (offset u1), Sleep 1000,
        Request LIMIT (offset u1), Sleep 2000, Request LIMIT (offset u1)]\<rparr>"
  define u2 where "u2 = s2\<lparr>consecutive_failures := 2, offset := offset ?s0 + LIMIT + LIMIT,
      iterations := iterations s2 + 1\<rparr>"
  define s3 where "s3 = u2\<lparr>requests := requests u2 + MAX_RETRIES,
      trace := trace u2 @ [Request LIMIT (offset u2), Sleep 1000,
        Request LIMIT (offset u2), Sleep 2000, Request LIMIT (offset u2)]\<rparr>"
  have p1: "page_attempts always_timeout 0 u0 = (None, s1)"
    unfolding s1_def by (rule page_attempts_all_transient) (simp add: always_timeout_def)
  have p2: "page_attempts always_timeout 0 u1 = (None, s2)"
    unfolding s2_def by (rule page_attempts_all_transient) (simp add: always_timeout_def)
  have p3: "page_attempts always_timeout 0 u2 = (None, s3)"
    unfolding s3_def by (rule page_attempts_all_transient) (simp add: always_timeout_def)
  have z: "consecutive_failures ?s0 = 0"
    by (simp add: initial_state_def)
  have lt: "consecutive_failures ?s0 + 1 < max_consecutive_failures"
    by (simp add: initial_state_def max_consecutive_failures_def)
  note inst = failed_page_is_skipped_or_aborts
    [where env = always_timeout and st = ?s0 and ?st1.0 = s1 and ?st2.0 = s2 and ?st3.0 = s3]
  from inst p1 lt have first: "loop_body always_timeout ?s0
      = Continue (s1\<lparr>consecutive_failures := consecutive_failures ?s0 + 1,
                      offset := offset ?s0 + LIMIT\<rparr>)"
    unfolding u0_def by blast
  from inst z p1 p2 p3
  have second: "all_items (fetch_loop always_timeout ?s0) = all_items ?s0
      \<and> consecutive_failures (fetch_loop always_timeout ?s0) = max_consecutive_failures"
    unfolding u0_def u1_def u2_def by blast

  let ?env = one_page_then_timeouts
  let ?a = "\<lparr>requests = 1, trace = [Request 100 0, Sleep 500],
         stats = \<lparr>subject_type = 2, collection_type = 1, total_items = 1000,
                   fetched_items = 2, pages_fetched = 1\<rparr>,
         all_items = [7, 8 :: nat], offset = 100, consecutive_failures = 0, iterations = 1\<rparr>"
  define v0 where "v0 = ?a\<lparr>iterations := iterations ?a + 1\<rparr>"
  define a1 where "a1 = v0\<lparr>requests := requests v0 + MAX_RETRIES,
      trace := trace v0 @ [Request LIMIT (offset v0), Sleep 1000,
        Request LIMIT (offset v0), Sleep 2000, Request LIMIT (offset v0)]\<rparr>"
  define v1 where "v1 = a1\<lparr>consecutive_failures := 1, offset := offset ?a + LIMIT,
      iterations := iterations a1 + 1\<rparr>"
  define a2 where "a2 = v1\<lparr>requests := requests v1 + MAX_RETRIES,
      trace := trace v1 @ [Request LIMIT (offset v1), Sleep 1000,
        Request LIMIT (offset v1), Sleep 2000, Request LIMIT (offset v1)]\<rparr>"
  define v2 where "v2 = a2\<lparr>consecutive_failures := 2, offset := offset ?a + LIMIT + LIMIT,
      iterations := iterations a2 + 1\<rparr>"
  define a3 where "a3 = v2\<lparr>requests := requests v2 + MAX_RETRIES,
      trace := trace v2 @ [Request LIMIT (offset v2), Sleep 1000,
        Request LIMIT (offset v2), Sleep 2000, Request LIMIT (offset v2)]\<rparr>"
  have lb: "loop_body ?env ?s0 = Continue ?a"
    by (simp add: loop_body_def page_attempts.simps one_page_then_timeouts_def initial_state_def
        new_stats_def fresh_def session_get_def time_sleep_def LIMIT_def MAX_RETRIES_def)
  have q1: "page_attempts ?env 0 v0 = (None, a1)"
    unfolding a1_def
    by (rule page_attempts_all_transient) (simp add: one_page_then_timeouts_def v0_def)
  have q2: "page_attempts ?env 0 v1 = (None, a2)"
    unfolding a2_def
    by (rule page_attempts_all_transient)
      (simp add: one_page_then_timeouts_def v1_def a1_def v0_def)
  have q3: "page_attempts ?env 0 v2 = (None, a3)"
    unfolding a3_def
    by (rule page_attempts_all_transient)
      (simp add: one_page_then_timeouts_def v2_def a2_def v1_def a1_def v0_def)
  have za: "consecutive_failures ?a = 0"
    by simp
  note inst2 = failed_page_is_skipped_or_aborts
    [where env = ?env and ?st0.0 = ?s0 and st = ?a and ?st1.0 = a1 and ?st2.0 = a2
       and ?st3.0 = a3 and cs = "new_stats 1000" and w = fresh]
  from inst2 lb have reach: "fetch_loop ?env ?s0 = fetch_loop ?env ?a"
    by blast
  from inst2 reach za q1 q2 q3
  have third: "fst (fetch_single_category ?env (new_stats 1000) fresh) = all_items ?a"
    unfolding v0_def v1_def v2_def by blast
  from first second lb third show ?thesis
    by (simp add: s1_def u0_def initial_state_def fresh_def LIMIT_def MAX_RETRIES_def
        max_consecutive_failures_def)
qed

end
